theory Spec2Isabelle
  imports Main "HOL-Library.Multiset"
begin

section \<open>Data model (package domain)\<close>

text \<open>
  A Go string is a byte sequence. Identifiers, request paths, methods and error
  messages are compared bytewise only, so they are \<^typ>\<open>string\<close>. The title is the one
  string that the code inspects rune by rune (\<^verbatim>\<open>strings.TrimSpace\<close>), so a title is the
  sequence of code points that Go decodes from it (an invalid byte decodes to 65533, which
  is not a space).
\<close>

type_synonym rune = nat
type_synonym runes = "rune list"

text \<open>
  A \<^verbatim>\<open>time.Time\<close> obtained from \<^verbatim>\<open>time.Now()\<close> is an instant of the process
  clock; \<^verbatim>\<open>Before\<close> is the strict order of instants.
\<close>

type_synonym time = int

definition Before :: "time \<Rightarrow> time \<Rightarrow> bool" where
  "Before t u = (t < u)"

record Todo =
  ID :: string
  Title :: runes
  Done :: bool
  CreatedAt :: time
  UpdatedAt :: time

text \<open>\<^verbatim>\<open>errors.New(msg)\<close>: an error value is its message.\<close>

datatype error = errors_New string

fun Error :: "error \<Rightarrow> string" where
  "Error (errors_New msg) = msg"

text \<open>
  The two failures the application produces, under the names the specification gives
  to them.
\<close>

definition ValidationError :: error where
  "ValidationError = errors_New ''title is required''"

definition NotFoundError :: error where
  "NotFoundError = errors_New ''todo not found''"

section \<open>Library functions used by the code\<close>

text \<open>\<^verbatim>\<open>unicode.IsSpace\<close>: the Latin-1 cases and the White_Space range table.\<close>

definition IsSpace :: "rune \<Rightarrow> bool" where
  "IsSpace r =
     ((9 \<le> r \<and> r \<le> 13) \<or> r = 32 \<or> r = 133 \<or> r = 160 \<or> r = 5760
      \<or> (8192 \<le> r \<and> r \<le> 8202) \<or> r = 8232 \<or> r = 8233 \<or> r = 8239 \<or> r = 8287
      \<or> r = 12288)"

text \<open>\<^verbatim>\<open>strings.TrimSpace\<close>: drop the leading and the trailing white space.\<close>

definition TrimSpace :: "runes \<Rightarrow> runes" where
  "TrimSpace s = rev (dropWhile IsSpace (rev (dropWhile IsSpace s)))"

text \<open>\<^verbatim>\<open>strings.TrimPrefix\<close>.\<close>

definition TrimPrefix :: "string \<Rightarrow> string \<Rightarrow> string" where
  "TrimPrefix s pre = (if take (length pre) s = pre then drop (length pre) s else s)"

text \<open>
  \<^verbatim>\<open>strings.Split(s, sep)\<close> for a separator of one byte: the pieces between the
  occurrences of the separator, so one piece more than there are separators, and
  \<open>['''']\<close> for the empty string.
\<close>

fun Split :: "string \<Rightarrow> char \<Rightarrow> string list" where
  "Split [] sep = [[]]"
| "Split (c # cs) sep =
     (if c = sep then [] # Split cs sep
      else (case Split cs sep of
              [] \<Rightarrow> [[c]]
            | p # ps \<Rightarrow> (c # p) # ps))"

text \<open>The verb \<^verbatim>\<open>%d\<close> of \<^verbatim>\<open>fmt.Sprintf\<close>: a decimal numeral, with a sign when negative.\<close>

definition digit :: "nat \<Rightarrow> char" where
  "digit d = ''0123456789'' ! d"

fun FormatUint :: "nat \<Rightarrow> string" where
  "FormatUint n = (if n < 10 then [digit n] else FormatUint (n div 10) @ [digit (n mod 10)])"

declare FormatUint.simps [simp del]

definition FormatInt :: "int \<Rightarrow> string" where
  "FormatInt i = (if i < 0 then CHR ''-'' # FormatUint (nat (- i)) else FormatUint (nat i))"

text \<open>\<^verbatim>\<open>fmt.Sprintf("%d-%d", timestamp, random)\<close>.\<close>

definition Sprintf :: "int \<Rightarrow> int \<Rightarrow> string" where
  "Sprintf timestamp random = FormatInt timestamp @ ''-'' @ FormatInt random"

section \<open>The in-memory repository (package memory)\<close>

text \<open>
  The state of a \<^verbatim>\<open>memRepo\<close> is its field \<^verbatim>\<open>data\<close>, a Go map from id to record.
  Every method holds the lock for its whole body, so a method is one atomic step on this
  map. What a method reads from its environment is a parameter: the two readings of the
  clock and the random number in \<^verbatim>\<open>Create\<close>, the clock in \<^verbatim>\<open>Toggle\<close>, and in
  \<^verbatim>\<open>List\<close> the order in which \<^verbatim>\<open>range\<close> visits the keys of the map, which Go leaves
  unspecified. The context argument is unused by every method and is left out. On failure
  the Go methods return a zero \<^verbatim>\<open>Todo\<close> beside the error, which no caller reads; the
  model returns the error alone.
\<close>

type_synonym memRepo = "string \<rightharpoonup> Todo"

definition New :: memRepo where
  "New = Map.empty"

definition memRepo_Create ::
  "memRepo \<Rightarrow> runes \<Rightarrow> int \<Rightarrow> int \<Rightarrow> time \<Rightarrow> (error + Todo) \<times> memRepo" where
  "memRepo_Create m title timestamp random now =
     (let id' = Sprintf timestamp random;
          t = \<lparr>ID = id', Title = title, Done = False, CreatedAt = now, UpdatedAt = now\<rparr>
      in (Inr t, m(id' \<mapsto> t)))"

text \<open>The loop \<^verbatim>\<open>for _, t := range m.data { out = append(out, t) }\<close>, visiting \<open>ks\<close>.\<close>

fun range_append :: "memRepo \<Rightarrow> string list \<Rightarrow> Todo list \<Rightarrow> Todo list" where
  "range_append m [] out = out"
| "range_append m (k # ks) out =
     (case m k of
        None \<Rightarrow> range_append m ks out
      | Some t \<Rightarrow> range_append m ks (out @ [t]))"

text \<open>
  The inner loop \<^verbatim>\<open>for j := i + 1; j < len(out); j++\<close> of the sort, entered at \<open>j\<close>:
  it exchanges \<open>out[i]\<close> and \<open>out[j]\<close> when the latter was created before the former.
\<close>

function sort_inner :: "Todo list \<Rightarrow> nat \<Rightarrow> nat \<Rightarrow> Todo list" where
  "sort_inner out i j =
     (if j < length out
      then sort_inner
             (if Before (CreatedAt (out ! j)) (CreatedAt (out ! i))
              then out[i := out ! j, j := out ! i]
              else out)
             i (j + 1)
      else out)"
  by pat_completeness auto
termination
  by (relation "measure (\<lambda>(out, i, j). length out - j)") auto

declare sort_inner.simps [simp del]

text \<open>The outer loop \<^verbatim>\<open>for i := 0; i < len(out); i++\<close>, entered at \<open>i\<close>.\<close>

function sort_outer :: "Todo list \<Rightarrow> nat \<Rightarrow> Todo list" where
  "sort_outer out i =
     (if i < length out then sort_outer (sort_inner out i (i + 1)) (i + 1) else out)"
  by pat_completeness auto
termination
proof (relation "measure (\<lambda>(out, i). length out - i)")
  show "wf (measure (\<lambda>(out :: Todo list, i :: nat). length out - i))"
    by simp
next
  fix out :: "Todo list" and i :: nat
  assume less: "i < length out"
  have len: "length (sort_inner xs a b) = length xs" for xs a b
  proof (induction xs a b rule: sort_inner.induct)
    case (1 xs a b)
    show ?case
    proof (cases "b < length xs")
      case True
      with "1.IH" show ?thesis
        by (subst sort_inner.simps) simp
    next
      case False
      then show ?thesis
        by (subst sort_inner.simps) simp
    qed
  qed
  from less show "((sort_inner out i (i + 1), i + 1), (out, i))
      \<in> measure (\<lambda>(out, i). length out - i)"
    by (simp add: len)
qed

declare sort_outer.simps [simp del]

definition memRepo_List :: "memRepo \<Rightarrow> string list \<Rightarrow> error + Todo list" where
  "memRepo_List m ks = Inr (sort_outer (range_append m ks []) 0)"

definition memRepo_Toggle :: "memRepo \<Rightarrow> string \<Rightarrow> time \<Rightarrow> (error + Todo) \<times> memRepo" where
  "memRepo_Toggle m id' now =
     (case m id' of
        None \<Rightarrow> (Inl (errors_New ''todo not found''), m)
      | Some t \<Rightarrow>
          (let t' = t\<lparr>Done := \<not> Done t, UpdatedAt := now\<rparr>
           in (Inr t', m(id' \<mapsto> t'))))"

definition memRepo_Delete :: "memRepo \<Rightarrow> string \<Rightarrow> (error + unit) \<times> memRepo" where
  "memRepo_Delete m id' =
     (case m id' of
        None \<Rightarrow> (Inl (errors_New ''todo not found''), m)
      | Some _ \<Rightarrow> (Inr (), m(id' := None)))"

section \<open>The use cases (package app)\<close>

text \<open>
  \<^verbatim>\<open>main\<close> constructs the service over the in-memory repository, so the calls through
  the port \<^verbatim>\<open>TodoRepo\<close> are calls of the methods above.
\<close>

definition TodoService_Create ::
  "memRepo \<Rightarrow> runes \<Rightarrow> int \<Rightarrow> int \<Rightarrow> time \<Rightarrow> (error + Todo) \<times> memRepo" where
  "TodoService_Create m title timestamp random now =
     (let title' = TrimSpace title
      in if title' = [] then (Inl (errors_New ''title is required''), m)
         else memRepo_Create m title' timestamp random now)"

definition TodoService_List :: "memRepo \<Rightarrow> string list \<Rightarrow> error + Todo list" where
  "TodoService_List m ks = memRepo_List m ks"

definition TodoService_Toggle :: "memRepo \<Rightarrow> string \<Rightarrow> time \<Rightarrow> (error + Todo) \<times> memRepo" where
  "TodoService_Toggle m id' now = memRepo_Toggle m id' now"

definition TodoService_Delete :: "memRepo \<Rightarrow> string \<Rightarrow> (error + unit) \<times> memRepo" where
  "TodoService_Delete m id' = memRepo_Delete m id'"

section \<open>The HTTP adapter (package http)\<close>

text \<open>
  A request is its method, its URL path and the outcome of decoding its body into
  \<^verbatim>\<open>struct{ Title string }\<close>: \<open>None\<close> when \<^verbatim>\<open>Decode\<close> returns an error, the decoded
  title otherwise. A response is the status code, the headers and the value encoded as
  the body.
\<close>

record request =
  Method :: string
  Path :: string
  decoded :: "runes option"

datatype payload =
    NoBody
  | StatusOk
  | ErrorMessage string
  | OneTodo Todo
  | TodoList "Todo list"

record response =
  status :: nat
  headers :: "string \<rightharpoonup> string"
  body :: payload

text \<open>What the handlers read from the environment while they serve one request.\<close>

record env =
  unix_now :: int
  rand_intn :: int
  time_now :: time
  range_keys :: "string list"

definition writeJSON :: "(string \<rightharpoonup> string) \<Rightarrow> nat \<Rightarrow> payload \<Rightarrow> response" where
  "writeJSON hdrs code v =
     \<lparr>status = code, headers = hdrs(''Content-Type'' \<mapsto> ''application/json''), body = v\<rparr>"

definition writeErr :: "(string \<rightharpoonup> string) \<Rightarrow> nat \<Rightarrow> error \<Rightarrow> response" where
  "writeErr hdrs code err = writeJSON hdrs code (ErrorMessage (Error err))"

definition handleHealth :: "memRepo \<Rightarrow> request \<Rightarrow> env \<Rightarrow> response \<times> memRepo" where
  "handleHealth m r e = (writeJSON Map.empty 200 StatusOk, m)"

definition handleTodos :: "memRepo \<Rightarrow> request \<Rightarrow> env \<Rightarrow> response \<times> memRepo" where
  "handleTodos m r e =
     (if Method r = ''GET'' then
        (case TodoService_List m (range_keys e) of
           Inl err \<Rightarrow> (writeErr Map.empty 500 err, m)
         | Inr list \<Rightarrow> (writeJSON Map.empty 200 (TodoList list), m))
      else if Method r = ''POST'' then
        (case decoded r of
           None \<Rightarrow> (writeErr Map.empty 400 (errors_New ''invalid JSON body''), m)
         | Some title \<Rightarrow>
             (case TodoService_Create m title (unix_now e) (rand_intn e) (time_now e) of
                (Inl err, m') \<Rightarrow> (writeErr Map.empty 400 err, m')
              | (Inr t, m') \<Rightarrow> (writeJSON Map.empty 201 (OneTodo t), m')))
      else
        (writeErr [''Allow'' \<mapsto> ''GET, POST''] 405 (errors_New ''method not allowed''), m))"

text \<open>
  In the first test the right disjunct is read only when \<open>parts\<close> is not empty, and
  \<open>parts ! 1\<close> only when there are two parts, as in Go.
\<close>

definition handleTodoByID :: "memRepo \<Rightarrow> request \<Rightarrow> env \<Rightarrow> response \<times> memRepo" where
  "handleTodoByID m r e =
     (let parts = Split (TrimPrefix (Path r) ''/todos/'') CHR ''/''
      in if length parts = 0 \<or> parts ! 0 = '''' then
           (writeErr Map.empty 400 (errors_New ''missing id''), m)
         else
           (let id' = parts ! 0
            in if length parts = 2 \<and> parts ! 1 = ''toggle'' then
                 (if Method r \<noteq> ''POST'' then
                    (writeErr [''Allow'' \<mapsto> ''POST''] 405 (errors_New ''method not allowed''), m)
                  else
                    (case TodoService_Toggle m id' (time_now e) of
                       (Inl err, m') \<Rightarrow> (writeErr Map.empty 404 err, m')
                     | (Inr updated, m') \<Rightarrow> (writeJSON Map.empty 200 (OneTodo updated), m')))
               else if Method r = ''DELETE'' then
                 (case TodoService_Delete m id' of
                    (Inl err, m') \<Rightarrow> (writeErr Map.empty 404 err, m')
                  | (Inr _, m') \<Rightarrow> (\<lparr>status = 204, headers = Map.empty, body = NoBody\<rparr>, m'))
               else
                 (writeErr [''Allow'' \<mapsto> ''DELETE, POST''] 405
                    (errors_New ''method not allowed''), m)))"

section \<open>The invariant of the store\<close>

text \<open>Every record is stored under its own id.\<close>

definition keyed_by_id :: "memRepo \<Rightarrow> bool" where
  "keyed_by_id m = (\<forall>k t. m k = Some t \<longrightarrow> ID t = k)"

text \<open>Ascending order of creation time, ties allowed.\<close>

definition created_le :: "Todo \<Rightarrow> Todo \<Rightarrow> bool" where
  "created_le a b = (CreatedAt a \<le> CreatedAt b)"

section \<open>Sample data\<close>

text \<open>Two records and a store holding them, for evaluating the operations.\<close>

definition todo_a :: Todo where
  "todo_a = \<lparr>ID = ''a'', Title = [120], Done = False, CreatedAt = 5, UpdatedAt = 5\<rparr>"

definition todo_b :: Todo where
  "todo_b = \<lparr>ID = ''b'', Title = [121], Done = True, CreatedAt = 3, UpdatedAt = 7\<rparr>"

definition store_ab :: memRepo where
  "store_ab = [''a'' \<mapsto> todo_a, ''b'' \<mapsto> todo_b]"

section \<open>The sort in \<^verbatim>\<open>List\<close>\<close>

text \<open>
  The inner loop keeps the length, the elements and the part before \<open>i\<close>, and leaves at
  \<open>i\<close> a record created no later than any record after it.
\<close>

lemma length_sort_inner: "length (sort_inner out i j) = length out"
proof (induction out i j rule: sort_inner.induct)
  case (1 out i j)
  show ?case
  proof (cases "j < length out")
    case True
    with "1.IH" show ?thesis by (subst sort_inner.simps) simp
  next
    case False
    then show ?thesis by (subst sort_inner.simps) simp
  qed
qed

lemma mset_sort_inner: "i < j \<Longrightarrow> mset (sort_inner out i j) = mset out"
proof (induction out i j rule: sort_inner.induct)
  case (1 out i j)
  show ?case
  proof (cases "j < length out")
    case True
    let ?out' = "if Before (CreatedAt (out ! j)) (CreatedAt (out ! i))
              then out[i := out ! j, j := out ! i] else out"
    have "mset (sort_inner ?out' i (j + 1)) = mset ?out'"
      using "1.IH" [OF True] "1.prems" by simp
    moreover have "mset ?out' = mset out"
      using True "1.prems" by (simp add: mset_swap)
    moreover have "sort_inner out i j = sort_inner ?out' i (j + 1)"
      using True by (subst sort_inner.simps) simp
    ultimately show ?thesis by simp
  next
    case False
    then show ?thesis by (subst sort_inner.simps) simp
  qed
qed

lemma take_sort_inner: "i < j \<Longrightarrow> take i (sort_inner out i j) = take i out"
proof (induction out i j rule: sort_inner.induct)
  case (1 out i j)
  show ?case
  proof (cases "j < length out")
    case True
    let ?out' = "if Before (CreatedAt (out ! j)) (CreatedAt (out ! i))
              then out[i := out ! j, j := out ! i] else out"
    have "take i (sort_inner ?out' i (j + 1)) = take i ?out'"
      using "1.IH" [OF True] "1.prems" by simp
    moreover have "take i ?out' = take i out"
      using True "1.prems" by simp
    moreover have "sort_inner out i j = sort_inner ?out' i (j + 1)"
      using True by (subst sort_inner.simps) simp
    ultimately show ?thesis by simp
  next
    case False
    then show ?thesis by (subst sort_inner.simps) simp
  qed
qed

lemma min_sort_inner:
  "i < j \<Longrightarrow> \<forall>k. i < k \<and> k < j \<and> k < length out \<longrightarrow> CreatedAt (out ! i) \<le> CreatedAt (out ! k) \<Longrightarrow>
   i < k \<Longrightarrow> k < length out \<Longrightarrow>
   CreatedAt (sort_inner out i j ! i) \<le> CreatedAt (sort_inner out i j ! k)"
proof (induction out i j rule: sort_inner.induct)
  case (1 out i j)
  show ?case
  proof (cases "j < length out")
    case True
    let ?out' = "if Before (CreatedAt (out ! j)) (CreatedAt (out ! i))
              then out[i := out ! j, j := out ! i] else out"
    have step: "sort_inner out i j = sort_inner ?out' i (j + 1)"
      using True by (subst sort_inner.simps) simp
    have len: "length ?out' = length out" by simp
    have inv: "\<forall>k. i < k \<and> k < j + 1 \<and> k < length ?out' \<longrightarrow> CreatedAt (?out' ! i) \<le> CreatedAt (?out' ! k)"
    proof (intro allI impI)
      fix k assume k0: "i < k \<and> k < j + 1 \<and> k < length ?out'"
      then have k: "i < k" "k < j + 1" "k < length out" by (simp_all split: if_splits)
      show "CreatedAt (?out' ! i) \<le> CreatedAt (?out' ! k)"
      proof (cases "Before (CreatedAt (out ! j)) (CreatedAt (out ! i))")
        case sw: True
        then have lt: "CreatedAt (out ! j) < CreatedAt (out ! i)" by (simp add: Before_def)
        show ?thesis
        proof (cases "k = j")
          case True
          with sw lt \<open>j < length out\<close> "1.prems"(1) show ?thesis by simp
        next
          case False
          with k have "k < j" by simp
          with "1.prems"(2) k have "CreatedAt (out ! i) \<le> CreatedAt (out ! k)" by simp
          with sw lt \<open>k < j\<close> k True "1.prems"(1) show ?thesis by simp
        qed
      next
        case nsw: False
        then have ge: "CreatedAt (out ! i) \<le> CreatedAt (out ! j)" by (simp add: Before_def)
        show ?thesis
        proof (cases "k = j")
          case True
          with nsw ge show ?thesis by simp
        next
          case False
          with k have "k < j" by simp
          with "1.prems"(2) k have "CreatedAt (out ! i) \<le> CreatedAt (out ! k)" by simp
          with nsw show ?thesis by simp
        qed
      qed
    qed
    have "CreatedAt (sort_inner ?out' i (j + 1) ! i) \<le> CreatedAt (sort_inner ?out' i (j + 1) ! k)"
      using "1.IH" [OF True _ inv "1.prems"(3)] "1.prems"(1,4) len by simp
    with step show ?thesis by simp
  next
    case False
    then have "sort_inner out i j = out" by (subst sort_inner.simps) simp
    moreover from False "1.prems" have "k < j" by simp
    ultimately show ?thesis using "1.prems" by simp
  qed
qed

text \<open>
  The outer loop: when the part before \<open>i\<close> is ordered and lies below the rest, the
  result is ordered.
\<close>

lemma mset_drop_sort_inner:
  assumes "i < j"
  shows "mset (drop i (sort_inner out i j)) = mset (drop i out)"
proof -
  let ?r = "sort_inner out i j"
  have "mset (take i ?r) + mset (drop i ?r) = mset (take i out) + mset (drop i out)"
    unfolding union_code append_take_drop_id using assms by (rule mset_sort_inner)
  with assms show ?thesis by (simp add: take_sort_inner)
qed

lemma mset_sort_outer: "mset (sort_outer out i) = mset out"
proof (induction out i rule: sort_outer.induct)
  case (1 out i)
  show ?case
  proof (cases "i < length out")
    case True
    with "1.IH" show ?thesis
      by (subst sort_outer.simps) (simp add: mset_sort_inner)
  next
    case False
    then show ?thesis by (subst sort_outer.simps) simp
  qed
qed

lemma sorted_sort_outer:
  "sorted_wrt created_le (take i out) \<Longrightarrow>
   \<forall>a \<in> set (take i out). \<forall>b \<in> set (drop i out). created_le a b \<Longrightarrow>
   sorted_wrt created_le (sort_outer out i)"
proof (induction out i rule: sort_outer.induct)
  case (1 out i)
  show ?case
  proof (cases "i < length out")
    case True
    let ?r = "sort_inner out i (i + 1)"
    have len: "length ?r = length out" by (rule length_sort_inner)
    have tk: "take i ?r = take i out" by (simp add: take_sort_inner)
    have dr: "set (drop i ?r) = set (drop i out)"
      using mset_drop_sort_inner [of i "i + 1" out] by (metis less_add_one set_mset_mset)
    have least: "created_le (?r ! i) (?r ! k)" if "i < k" "k < length out" for k
      unfolding created_le_def using that by (intro min_sort_inner) simp_all
    have here: "?r ! i \<in> set (drop i ?r)"
      using True len by (metis Cons_nth_drop_Suc list.set_intros(1))
    have tk1: "take (i + 1) ?r = take i out @ [?r ! i]"
      using True len tk by (simp add: take_Suc_conv_app_nth)
    have s1: "sorted_wrt created_le (take (i + 1) ?r)"
    proof -
      have "sorted_wrt created_le (take i out @ [?r ! i])"
        using "1.prems" here dr by (simp add: sorted_wrt_append)
      then show ?thesis by (simp only: tk1)
    qed
    have s2: "\<forall>a \<in> set (take (i + 1) ?r). \<forall>b \<in> set (drop (i + 1) ?r). created_le a b"
    proof (intro ballI)
      fix a b assume a: "a \<in> set (take (i + 1) ?r)" and b: "b \<in> set (drop (i + 1) ?r)"
      from b obtain k where k: "b = ?r ! k" "i + 1 \<le> k" "k < length ?r"
        by (auto simp: in_set_conv_nth)
      from b have b': "b \<in> set (drop i out)"
        using dr by (metis add.commute in_set_dropD drop_drop plus_1_eq_Suc)
      from a have "a \<in> set (take i out @ [?r ! i])" by (simp only: tk1)
      then have "a \<in> set (take i out) \<or> a = ?r ! i" by auto
      then show "created_le a b"
      proof
        assume "a \<in> set (take i out)"
        with "1.prems"(2) b' show ?thesis by blast
      next
        assume "a = ?r ! i"
        with k least [of k] len show ?thesis by simp
      qed
    qed
    have "sorted_wrt created_le (sort_outer ?r (i + 1))"
      using "1.IH" [OF True s1 s2] .
    with True show ?thesis by (subst sort_outer.simps) simp
  next
    case False
    then have "sort_outer out i = out" by (subst sort_outer.simps) simp
    with False "1.prems"(1) show ?thesis by simp
  qed
qed

lemma range_append_eq:
  "set ks \<subseteq> dom m \<Longrightarrow> range_append m ks out = out @ map (\<lambda>k. the (m k)) ks"
  by (induction ks arbitrary: out) auto

section \<open>What \<^verbatim>\<open>List\<close> returns\<close>

lemma memRepo_List_mset:
  assumes "set ks \<subseteq> dom m"
  shows "\<exists>out. memRepo_List m ks = Inr out \<and> mset out = mset (map (\<lambda>k. the (m k)) ks)"
  using assms by (simp add: memRepo_List_def mset_sort_outer range_append_eq)

lemma memRepo_List_sorted:
  "\<exists>out. memRepo_List m ks = Inr out \<and> sorted_wrt created_le out"
  by (simp add: memRepo_List_def sorted_sort_outer)

lemma ran_eq_image: "ran m = (\<lambda>k. the (m k)) ` dom m"
  by (force simp: ran_def dom_def image_iff)

lemma keyed_by_id_inj: "keyed_by_id m \<Longrightarrow> inj_on (\<lambda>k. the (m k)) (dom m)"
  unfolding keyed_by_id_def by (rule inj_onI) (metis domD option.sel)

lemma keyed_by_id_New: "keyed_by_id New"
  by (simp add: keyed_by_id_def New_def)

lemma keyed_by_id_Create:
  "keyed_by_id m \<Longrightarrow> keyed_by_id (snd (memRepo_Create m title timestamp random now))"
  by (simp add: keyed_by_id_def memRepo_Create_def Let_def)

lemma keyed_by_id_Toggle:
  "keyed_by_id m \<Longrightarrow> keyed_by_id (snd (memRepo_Toggle m id' now))"
  by (auto simp: keyed_by_id_def memRepo_Toggle_def Let_def split: option.splits)

lemma keyed_by_id_Delete:
  "keyed_by_id m \<Longrightarrow> keyed_by_id (snd (memRepo_Delete m id'))"
  by (auto simp: keyed_by_id_def memRepo_Delete_def split: option.splits)

lemma dom_store_ab: "dom store_ab = {''a'', ''b''}"
  by (auto simp: store_ab_def)

lemma List_store_ab: "memRepo_List store_ab [''a'', ''b''] = Inr [todo_b, todo_a]"
  by (simp add: memRepo_List_def store_ab_def sort_outer.simps sort_inner.simps Before_def
      todo_a_def todo_b_def)

section \<open>The claims\<close>

text \<open>
  C3. For every state of the store and every order in which \<^verbatim>\<open>range\<close> visits its keys,
  \<^verbatim>\<open>List\<close> succeeds and returns the records of the store, one for each key, in
  ascending order of \<open>CreatedAt\<close>; the empty store yields the empty list.
\<close>

theorem list_sorted_complete:
  assumes "distinct ks" and "set ks = dom m"
  shows "\<exists>out. memRepo_List m ks = Inr out \<and> sorted_wrt created_le out
           \<and> set out = ran m \<and> length out = card (dom m)
           \<and> mset out = mset (map (\<lambda>k. the (m k)) ks)
           \<and> memRepo_List New [] = Inr []"
proof -
  from assms(2) have sub: "set ks \<subseteq> dom m" by simp
  obtain out where out: "memRepo_List m ks = Inr out"
      "mset out = mset (map (\<lambda>k. the (m k)) ks)"
    using memRepo_List_mset [OF sub] by blast
  from memRepo_List_sorted [of m ks] out(1) have srt: "sorted_wrt created_le out" by simp
  from out(2) have "set out = set (map (\<lambda>k. the (m k)) ks)" by (rule mset_eq_setD)
  with assms(2) have st: "set out = ran m" by (simp add: ran_eq_image)
  from out(2) have "length out = length (map (\<lambda>k. the (m k)) ks)" by (rule mset_eq_length)
  with assms have len: "length out = card (dom m)" by (simp add: distinct_card [symmetric])
  have emp: "memRepo_List New [] = Inr []"
    by (simp add: memRepo_List_def New_def sort_outer.simps)
  from out srt st len emp show ?thesis by simp
qed

theorem list_sorted_complete_witness:
  "distinct [''a'', ''b''] \<and> set [''a'', ''b''] = dom store_ab
   \<and> (\<exists>out. memRepo_List store_ab [''a'', ''b''] = Inr out
          \<and> out = [todo_b, todo_a]
          \<and> sorted_wrt created_le out
          \<and> set out = ran store_ab
          \<and> length out = card (dom store_ab))"
proof -
  have d: "distinct [''a'', ''b'']" by simp
  have s: "set [''a'', ''b''] = dom store_ab" by (simp add: dom_store_ab)
  from list_sorted_complete [OF d s] d s List_store_ab show ?thesis by auto
qed

subsection \<open>Creating\<close>

lemma Sprintf_sample: "Sprintf 1700000000 42 = ''1700000000-42''"
  by (simp add: Sprintf_def FormatInt_def FormatUint.simps digit_def)

lemma TrimSpace_sample: "TrimSpace [32, 66, 117, 121, 32] = [66, 117, 121]"
  by (simp add: TrimSpace_def IsSpace_def)

lemma TodoService_Create_ok:
  "TrimSpace title \<noteq> [] \<Longrightarrow>
   TodoService_Create m title timestamp random now =
     (let t = \<lparr>ID = Sprintf timestamp random, Title = TrimSpace title, Done = False,
                CreatedAt = now, UpdatedAt = now\<rparr>
      in (Inr t, m(ID t \<mapsto> t)))"
  by (simp add: TodoService_Create_def memRepo_Create_def Let_def)

lemma count_listed:
  assumes "keyed_by_id m" and "distinct ks" and "set ks = dom m" and "m k = Some t"
    and "memRepo_List m ks = Inr out"
  shows "count_list out t = 1"
proof -
  from assms(3) have "set ks \<subseteq> dom m" by simp
  from memRepo_List_mset [OF this] assms(5)
  have ms: "mset out = mset (map (\<lambda>k. the (m k)) ks)" by simp
  from keyed_by_id_inj [OF assms(1)] assms(2,3)
  have "distinct (map (\<lambda>k. the (m k)) ks)" by (simp add: distinct_map)
  with ms have "distinct out" by (metis mset_eq_imp_distinct_iff)
  moreover from assms(3,4) ms have "t \<in> set out"
    by (metis (mono_tags, lifting) domI image_eqI list.set_map mset_eq_setD option.sel)
  ultimately have "count (mset out) t = 1" by (simp add: distinct_count_atmost_1)
  then show ?thesis by (simp only: count_mset)
qed

text \<open>
  C1. When the trimmed title is not empty, \<^verbatim>\<open>Create\<close> succeeds and returns a record
  with \<open>Done = False\<close> and \<open>CreatedAt = UpdatedAt\<close>, and a following \<^verbatim>\<open>List\<close>
  contains this record exactly once. The store is one in which every record lies under
  its own id, which every store built by the operations is.
\<close>

theorem create_then_list:
  assumes "TrimSpace title \<noteq> []" and "keyed_by_id m"
    and "distinct ks"
    and "set ks = dom (snd (TodoService_Create m title timestamp random now))"
  shows "\<exists>t out. TodoService_Create m title timestamp random now = (Inr t, m(ID t \<mapsto> t))
           \<and> Done t = False \<and> CreatedAt t = UpdatedAt t \<and> Title t = TrimSpace title
           \<and> TodoService_List (m(ID t \<mapsto> t)) ks = Inr out \<and> count_list out t = 1"
proof -
  let ?t = "\<lparr>ID = Sprintf timestamp random, Title = TrimSpace title, Done = False,
             CreatedAt = now, UpdatedAt = now\<rparr>"
  let ?m = "m(ID ?t \<mapsto> ?t)"
  have cr: "TodoService_Create m title timestamp random now = (Inr ?t, ?m)"
    using assms(1) by (simp add: TodoService_Create_ok Let_def)
  have inv: "keyed_by_id ?m"
    using assms(2) by (simp add: keyed_by_id_def)
  from assms(4) cr have ks: "set ks = dom ?m" by simp
  obtain out where out: "memRepo_List ?m ks = Inr out"
    by (simp add: memRepo_List_def)
  have "?m (ID ?t) = Some ?t" by simp
  from count_listed [OF inv assms(3) ks this out] have "count_list out ?t = 1" .
  with cr out show ?thesis
    by (intro exI [of _ ?t] exI [of _ out]) (simp add: TodoService_List_def)
qed

theorem create_then_list_witness:
  "TrimSpace [32, 66, 117, 121, 32] \<noteq> [] \<and> keyed_by_id store_ab
   \<and> distinct [''1700000000-42'', ''a'', ''b'']
   \<and> set [''1700000000-42'', ''a'', ''b'']
       = dom (snd (TodoService_Create store_ab [32, 66, 117, 121, 32] 1700000000 42 9))
   \<and> (\<exists>t out. TodoService_Create store_ab [32, 66, 117, 121, 32] 1700000000 42 9
                = (Inr t, store_ab(ID t \<mapsto> t))
          \<and> t = \<lparr>ID = ''1700000000-42'', Title = [66, 117, 121], Done = False,
                  CreatedAt = 9, UpdatedAt = 9\<rparr>
          \<and> TodoService_List (store_ab(ID t \<mapsto> t)) [''1700000000-42'', ''a'', ''b''] = Inr out
          \<and> count_list out t = 1)"
proof -
  have h1: "TrimSpace [32, 66, 117, 121, 32] \<noteq> []" by (simp add: TrimSpace_sample)
  have h2: "keyed_by_id store_ab"
    by (simp add: keyed_by_id_def store_ab_def todo_a_def todo_b_def)
  have h3: "distinct [''1700000000-42'', ''a'', ''b'']" by simp
  have cr: "TodoService_Create store_ab [32, 66, 117, 121, 32] 1700000000 42 9
      = (Inr \<lparr>ID = ''1700000000-42'', Title = [66, 117, 121], Done = False,
                  CreatedAt = 9, UpdatedAt = 9\<rparr>,
         store_ab(''1700000000-42'' \<mapsto> \<lparr>ID = ''1700000000-42'', Title = [66, 117, 121], Done = False,
                  CreatedAt = 9, UpdatedAt = 9\<rparr>))"
    by (simp add: TodoService_Create_ok TrimSpace_sample Sprintf_sample Let_def)
  have h4: "set [''1700000000-42'', ''a'', ''b'']
       = dom (snd (TodoService_Create store_ab [32, 66, 117, 121, 32] 1700000000 42 9))"
    by (simp add: cr dom_store_ab)
  obtain t out where a: "TodoService_Create store_ab [32, 66, 117, 121, 32] 1700000000 42 9
                = (Inr t, store_ab(ID t \<mapsto> t))"
    and b: "TodoService_List (store_ab(ID t \<mapsto> t)) [''1700000000-42'', ''a'', ''b''] = Inr out"
    and c: "count_list out t = 1"
    using create_then_list [OF h1 h2 h3 h4] by blast
  from a have t: "t = \<lparr>ID = ''1700000000-42'', Title = [66, 117, 121], Done = False,
                  CreatedAt = 9, UpdatedAt = 9\<rparr>"
    unfolding cr by (simp only: prod.inject sum.inject)
  from a b c t have "\<exists>t out. TodoService_Create store_ab [32, 66, 117, 121, 32] 1700000000 42 9
                = (Inr t, store_ab(ID t \<mapsto> t))
          \<and> t = \<lparr>ID = ''1700000000-42'', Title = [66, 117, 121], Done = False,
                  CreatedAt = 9, UpdatedAt = 9\<rparr>
          \<and> TodoService_List (store_ab(ID t \<mapsto> t)) [''1700000000-42'', ''a'', ''b''] = Inr out
          \<and> count_list out t = 1"
    by blast
  with h1 h2 h3 h4 show ?thesis by (intro conjI)
qed

subsection \<open>Parsing the path\<close>

lemma Split_not_Nil: "Split s sep \<noteq> []"
  by (induction s) (auto split: list.splits)

lemma Split_no_sep: "sep \<notin> set s \<Longrightarrow> Split s sep = [s]"
  by (induction s) auto

lemma Split_append_sep: "sep \<notin> set a \<Longrightarrow> Split (a @ sep # b) sep = a # Split b sep"
  by (induction a) auto

lemma Split_single: "Split s sep = [x] \<Longrightarrow> s = x"
proof (induction s arbitrary: x)
  case Nil
  then show ?case by simp
next
  case (Cons c cs)
  show ?case
  proof (cases "c = sep")
    case True
    with Cons.prems Split_not_Nil [of cs sep] show ?thesis by simp
  next
    case False
    with Cons.prems Split_not_Nil [of cs sep]
    obtain p where "Split cs sep = [p]" and "x = c # p"
      by (auto split: list.splits)
    with Cons.IH show ?thesis by simp
  qed
qed

lemma TrimPrefix_append: "TrimPrefix (pre @ s) pre = s"
  by (simp add: TrimPrefix_def)

lemma handleTodoByID_toggle:
  assumes "id' \<noteq> []" and "CHR ''/'' \<notin> set id'"
    and "Path r = ''/todos/'' @ id' @ ''/toggle''"
  shows "handleTodoByID m r e =
     (if Method r \<noteq> ''POST'' then
        (writeErr [''Allow'' \<mapsto> ''POST''] 405 (errors_New ''method not allowed''), m)
      else
        (case TodoService_Toggle m id' (time_now e) of
           (Inl err, m') \<Rightarrow> (writeErr Map.empty 404 err, m')
         | (Inr updated, m') \<Rightarrow> (writeJSON Map.empty 200 (OneTodo updated), m')))"
proof -
  have "TrimPrefix (Path r) ''/todos/'' = id' @ CHR ''/'' # ''toggle''"
    using TrimPrefix_append [of "''/todos/''" "id' @ ''/toggle''"] assms(3) by simp
  then have "Split (TrimPrefix (Path r) ''/todos/'') CHR ''/'' = [id', ''toggle'']"
    using assms(2) by (simp add: Split_append_sep Split_no_sep)
  with assms(1) show ?thesis
    by (simp add: handleTodoByID_def Let_def)
qed

lemma handleTodoByID_item:
  assumes "id' \<noteq> []" and "CHR ''/'' \<notin> set id'"
    and "Path r = ''/todos/'' @ id' @ rest"
    and "rest = [] \<or> (\<exists>suffix. rest = CHR ''/'' # suffix \<and> suffix \<noteq> ''toggle'')"
  shows "handleTodoByID m r e =
     (if Method r = ''DELETE'' then
        (case TodoService_Delete m id' of
           (Inl err, m') \<Rightarrow> (writeErr Map.empty 404 err, m')
         | (Inr _, m') \<Rightarrow> (\<lparr>status = 204, headers = Map.empty, body = NoBody\<rparr>, m'))
      else
        (writeErr [''Allow'' \<mapsto> ''DELETE, POST''] 405 (errors_New ''method not allowed''), m))"
proof -
  let ?parts = "Split (TrimPrefix (Path r) ''/todos/'') CHR ''/''"
  have tp: "TrimPrefix (Path r) ''/todos/'' = id' @ rest"
    using TrimPrefix_append [of "''/todos/''" "id' @ rest"] assms(3) by simp
  from assms(4) have "?parts ! 0 = id' \<and> \<not> (length ?parts = 2 \<and> ?parts ! 1 = ''toggle'')"
  proof
    assume "rest = []"
    with tp assms(2) show ?thesis by (simp add: Split_no_sep)
  next
    assume "\<exists>suffix. rest = CHR ''/'' # suffix \<and> suffix \<noteq> ''toggle''"
    then obtain suffix where rest: "rest = CHR ''/'' # suffix" and ne: "suffix \<noteq> ''toggle''"
      by blast
    from tp rest assms(2) have parts: "?parts = id' # Split suffix CHR ''/''"
      by (simp add: Split_append_sep)
    have "\<not> (length (Split suffix CHR ''/'') = 1 \<and> Split suffix CHR ''/'' ! 0 = ''toggle'')"
    proof
      assume a: "length (Split suffix CHR ''/'') = 1 \<and> Split suffix CHR ''/'' ! 0 = ''toggle''"
      then have "Split suffix CHR ''/'' = [''toggle'']"
        by (cases "Split suffix CHR ''/''") auto
      from Split_single [OF this] ne show False by simp
    qed
    with parts show ?thesis by auto
  qed
  moreover have "length ?parts \<noteq> 0" using Split_not_Nil [of _ "CHR ''/''"] by simp
  ultimately show ?thesis
    using assms(1) by (auto simp: handleTodoByID_def Let_def)
qed

subsection \<open>Failures\<close>

lemma TodoService_Create_blank:
  "TrimSpace title = [] \<Longrightarrow>
   TodoService_Create m title timestamp random now = (Inl ValidationError, m)"
  by (simp add: TodoService_Create_def ValidationError_def)

lemma TrimSpace_blank: "TrimSpace [] = []" "TrimSpace [32, 32, 32] = []"
  by (simp_all add: TrimSpace_def IsSpace_def)

text \<open>
  C2. When the trimmed title is empty, \<^verbatim>\<open>Create\<close> fails with the validation error and
  leaves the store as it was, and the handler of \<^verbatim>\<open>POST /todos\<close> answers 400 with
  that error, the store unchanged; the titles \<^verbatim>\<open>""\<close> and \<^verbatim>\<open>"   "\<close> are such titles.
\<close>

theorem blank_title_rejected:
  assumes "TrimSpace title = []"
  shows "TodoService_Create m title timestamp random now = (Inl ValidationError, m)
    \<and> (Method r = ''POST'' \<and> decoded r = Some title \<longrightarrow>
         handleTodos m r e = (writeErr Map.empty 400 ValidationError, m)
         \<and> status (fst (handleTodos m r e)) = 400 \<and> snd (handleTodos m r e) = m)
    \<and> TodoService_Create m [] timestamp random now = (Inl ValidationError, m)
    \<and> TodoService_Create m [32, 32, 32] timestamp random now = (Inl ValidationError, m)"
proof -
  have a: "TodoService_Create m title timestamp random now = (Inl ValidationError, m)"
    using assms by (rule TodoService_Create_blank)
  have b: "handleTodos m r e = (writeErr Map.empty 400 ValidationError, m)"
    if "Method r = ''POST''" and "decoded r = Some title"
    using that assms by (simp add: handleTodos_def TodoService_Create_blank)
  have c: "status (writeErr Map.empty 400 ValidationError) = 400"
    by (simp add: writeErr_def writeJSON_def)
  from a b c show ?thesis
    by (simp add: TodoService_Create_blank TrimSpace_blank)
qed

theorem blank_title_rejected_witness:
  "TrimSpace [9, 32, 160] = []
   \<and> TodoService_Create store_ab [9, 32, 160] 1700000000 42 9 = (Inl ValidationError, store_ab)
   \<and> status (fst (handleTodos store_ab
         \<lparr>Method = ''POST'', Path = ''/todos'', decoded = Some [9, 32, 160]\<rparr>
         \<lparr>unix_now = 1700000000, rand_intn = 42, time_now = 9, range_keys = [''a'', ''b'']\<rparr>))
       = 400
   \<and> snd (handleTodos store_ab
         \<lparr>Method = ''POST'', Path = ''/todos'', decoded = Some [9, 32, 160]\<rparr>
         \<lparr>unix_now = 1700000000, rand_intn = 42, time_now = 9, range_keys = [''a'', ''b'']\<rparr>)
       = store_ab"
proof -
  have h: "TrimSpace [9, 32, 160] = []" by (simp add: TrimSpace_def IsSpace_def)
  from blank_title_rejected [OF h, of store_ab 1700000000 42 9
      "\<lparr>Method = ''POST'', Path = ''/todos'', decoded = Some [9, 32, 160]\<rparr>"
      "\<lparr>unix_now = 1700000000, rand_intn = 42, time_now = 9, range_keys = [''a'', ''b'']\<rparr>"]
    h show ?thesis by (simp add: writeErr_def writeJSON_def)
qed

lemma memRepo_Toggle_absent:
  "m id' = None \<Longrightarrow> memRepo_Toggle m id' now = (Inl NotFoundError, m)"
  by (simp add: memRepo_Toggle_def NotFoundError_def)

lemma memRepo_Delete_absent:
  "m id' = None \<Longrightarrow> memRepo_Delete m id' = (Inl NotFoundError, m)"
  by (simp add: memRepo_Delete_def NotFoundError_def)

text \<open>
  C5. For an id that is not in the store, \<^verbatim>\<open>Toggle\<close> and \<^verbatim>\<open>Delete\<close> fail with the
  not-found error and leave the store as it was, and the handler answers 404 to
  \<^verbatim>\<open>POST /todos/{id}/toggle\<close> and to \<^verbatim>\<open>DELETE /todos/{id}\<close>, the store unchanged. In
  a path the id is a segment: it is not empty and holds no slash.
\<close>

theorem absent_id_not_found:
  assumes "m id' = None"
  shows "memRepo_Toggle m id' now = (Inl NotFoundError, m)
    \<and> memRepo_Delete m id' = (Inl NotFoundError, m)
    \<and> (id' \<noteq> [] \<and> CHR ''/'' \<notin> set id' \<longrightarrow>
         handleTodoByID m \<lparr>Method = ''POST'', Path = ''/todos/'' @ id' @ ''/toggle'', decoded = d\<rparr> e
           = (writeErr Map.empty 404 NotFoundError, m)
         \<and> handleTodoByID m \<lparr>Method = ''DELETE'', Path = ''/todos/'' @ id', decoded = d\<rparr> e
           = (writeErr Map.empty 404 NotFoundError, m)
         \<and> status (writeErr Map.empty 404 NotFoundError) = 404)"
proof -
  have t: "memRepo_Toggle m id' now = (Inl NotFoundError, m)" for now
    using assms by (rule memRepo_Toggle_absent)
  have dl: "memRepo_Delete m id' = (Inl NotFoundError, m)"
    using assms by (rule memRepo_Delete_absent)
  have st: "status (writeErr Map.empty 404 NotFoundError) = 404"
    by (simp add: writeErr_def writeJSON_def)
  have h1: "handleTodoByID m \<lparr>Method = ''POST'', Path = ''/todos/'' @ id' @ ''/toggle'', decoded = d\<rparr> e
           = (writeErr Map.empty 404 NotFoundError, m)"
    if "id' \<noteq> []" and "CHR ''/'' \<notin> set id'"
    using handleTodoByID_toggle [OF that, of
        "\<lparr>Method = ''POST'', Path = ''/todos/'' @ id' @ ''/toggle'', decoded = d\<rparr>" m e]
    by (simp add: TodoService_Toggle_def t)
  have h2: "handleTodoByID m \<lparr>Method = ''DELETE'', Path = ''/todos/'' @ id', decoded = d\<rparr> e
           = (writeErr Map.empty 404 NotFoundError, m)"
    if "id' \<noteq> []" and "CHR ''/'' \<notin> set id'"
    using handleTodoByID_item [OF that, of
        "\<lparr>Method = ''DELETE'', Path = ''/todos/'' @ id', decoded = d\<rparr>" "[]" m e]
    by (simp add: TodoService_Delete_def dl)
  from t dl st h1 h2 show ?thesis by blast
qed

theorem absent_id_not_found_witness:
  "store_ab ''c'' = None
   \<and> memRepo_Toggle store_ab ''c'' 9 = (Inl NotFoundError, store_ab)
   \<and> memRepo_Delete store_ab ''c'' = (Inl NotFoundError, store_ab)
   \<and> ''c'' \<noteq> [] \<and> CHR ''/'' \<notin> set ''c''
   \<and> handleTodoByID store_ab \<lparr>Method = ''POST'', Path = ''/todos/c/toggle'', decoded = None\<rparr>
        \<lparr>unix_now = 1700000000, rand_intn = 42, time_now = 9, range_keys = [''a'', ''b'']\<rparr>
       = (writeErr Map.empty 404 NotFoundError, store_ab)
   \<and> handleTodoByID store_ab \<lparr>Method = ''DELETE'', Path = ''/todos/c'', decoded = None\<rparr>
        \<lparr>unix_now = 1700000000, rand_intn = 42, time_now = 9, range_keys = [''a'', ''b'']\<rparr>
       = (writeErr Map.empty 404 NotFoundError, store_ab)"
proof -
  have h: "store_ab ''c'' = None" by (simp add: store_ab_def)
  from absent_id_not_found [of store_ab "''c''" 9 None
      "\<lparr>unix_now = 1700000000, rand_intn = 42, time_now = 9, range_keys = [''a'', ''b'']\<rparr>",
      OF h]
    h show ?thesis by simp
qed

subsection \<open>Deleting through a longer path\<close>

text \<open>
  C9. A request \<^verbatim>\<open>DELETE /todos/{id}/{suffix}\<close> whose suffix is not \<^verbatim>\<open>toggle\<close> is
  served as \<^verbatim>\<open>DELETE /todos/{id}\<close>: the handler deletes the id and answers 204 when
  the id is in the store and 404 when it is not. The id is a segment, not empty and
  without a slash; the suffix is any string, and may hold slashes.
\<close>

theorem delete_ignores_suffix:
  assumes "id' \<noteq> []" and "CHR ''/'' \<notin> set id'" and "suffix \<noteq> ''toggle''"
    and "Method r = ''DELETE''" and "Path r = ''/todos/'' @ id' @ ''/'' @ suffix"
  shows "handleTodoByID m r e = handleTodoByID m (r\<lparr>Path := ''/todos/'' @ id'\<rparr>) e
    \<and> handleTodoByID m r e =
        (case TodoService_Delete m id' of
           (Inl err, m') \<Rightarrow> (writeErr Map.empty 404 err, m')
         | (Inr _, m') \<Rightarrow> (\<lparr>status = 204, headers = Map.empty, body = NoBody\<rparr>, m'))
    \<and> handleTodoByID m r e =
        (if m id' = None then (writeErr Map.empty 404 NotFoundError, m)
         else (\<lparr>status = 204, headers = Map.empty, body = NoBody\<rparr>, m(id' := None)))"
proof -
  let ?del = "case TodoService_Delete m id' of
           (Inl err, m') \<Rightarrow> (writeErr Map.empty 404 err, m')
         | (Inr _, m') \<Rightarrow> (\<lparr>status = 204, headers = Map.empty, body = NoBody\<rparr>, m')"
  have long: "handleTodoByID m r e = ?del"
    using handleTodoByID_item [OF assms(1,2), of r "CHR ''/'' # suffix" m e] assms(3,4,5)
    by simp
  have short: "handleTodoByID m (r\<lparr>Path := ''/todos/'' @ id'\<rparr>) e = ?del"
    using handleTodoByID_item [OF assms(1,2), of "r\<lparr>Path := ''/todos/'' @ id'\<rparr>" "[]" m e]
      assms(4)
    by simp
  have expl: "?del =
        (if m id' = None then (writeErr Map.empty 404 NotFoundError, m)
         else (\<lparr>status = 204, headers = Map.empty, body = NoBody\<rparr>, m(id' := None)))"
    by (auto simp: TodoService_Delete_def memRepo_Delete_def NotFoundError_def
        split: option.splits)
  from long short expl show ?thesis by simp
qed

theorem delete_ignores_suffix_witness:
  "''a'' \<noteq> [] \<and> CHR ''/'' \<notin> set ''a'' \<and> ''junk'' \<noteq> ''toggle''
   \<and> handleTodoByID store_ab \<lparr>Method = ''DELETE'', Path = ''/todos/a/junk'', decoded = None\<rparr>
        \<lparr>unix_now = 1700000000, rand_intn = 42, time_now = 9, range_keys = [''a'', ''b'']\<rparr>
       = (\<lparr>status = 204, headers = Map.empty, body = NoBody\<rparr>, store_ab(''a'' := None))"
proof -
  have h1: "''a'' \<noteq> []" and h2: "CHR ''/'' \<notin> set ''a''" and h3: "''junk'' \<noteq> ''toggle''"
    by simp_all
  have h4: "Method \<lparr>Method = ''DELETE'', Path = ''/todos/a/junk'', decoded = None\<rparr> = ''DELETE''"
    by simp
  have h5: "Path \<lparr>Method = ''DELETE'', Path = ''/todos/a/junk'', decoded = None :: runes option\<rparr>
      = ''/todos/'' @ ''a'' @ ''/'' @ ''junk''"
    by simp
  have h6: "store_ab ''a'' \<noteq> None" by (simp add: store_ab_def)
  from delete_ignores_suffix [OF h1 h2 h3 h4 h5, of store_ab
      "\<lparr>unix_now = 1700000000, rand_intn = 42, time_now = 9, range_keys = [''a'', ''b'']\<rparr>",
      THEN conjunct2, THEN conjunct2]
    h6 have "handleTodoByID store_ab \<lparr>Method = ''DELETE'', Path = ''/todos/a/junk'', decoded = None\<rparr>
        \<lparr>unix_now = 1700000000, rand_intn = 42, time_now = 9, range_keys = [''a'', ''b'']\<rparr>
       = (\<lparr>status = 204, headers = Map.empty, body = NoBody\<rparr>, store_ab(''a'' := None))"
    by simp
  with h1 h2 h3 show ?thesis by (intro conjI)
qed

subsection \<open>Methods that a path does not serve\<close>

text \<open>
  C8, as the code has it by design. The handler of \<^verbatim>\<open>/todos\<close> answers every method
  other than \<^verbatim>\<open>GET\<close> and \<^verbatim>\<open>POST\<close> with 405 and the header \<^verbatim>\<open>Allow: GET, POST\<close>; the
  handler of \<^verbatim>\<open>/todos/{id}/toggle\<close> answers every method other than \<^verbatim>\<open>POST\<close> with
  405 and \<^verbatim>\<open>Allow: POST\<close>; the handler of \<^verbatim>\<open>/todos/{id}\<close> answers every method
  other than \<^verbatim>\<open>DELETE\<close> with 405 and the message \<^verbatim>\<open>method not allowed\<close>; none of
  them touches the store. The handler of \<^verbatim>\<open>/health\<close> reads no method and answers 200
  with the fixed payload. What the \<^verbatim>\<open>Allow\<close> header of \<^verbatim>\<open>/todos/{id}\<close> lists is not
  part of the statement.
\<close>

theorem method_not_allowed:
  "(Method r \<noteq> ''GET'' \<and> Method r \<noteq> ''POST'' \<longrightarrow>
      handleTodos m r e
        = (writeErr [''Allow'' \<mapsto> ''GET, POST''] 405 (errors_New ''method not allowed''), m)
      \<and> status (fst (handleTodos m r e)) = 405
      \<and> headers (fst (handleTodos m r e)) ''Allow'' = Some ''GET, POST'')
   \<and> (id' \<noteq> [] \<and> CHR ''/'' \<notin> set id' \<and> Path r = ''/todos/'' @ id' @ ''/toggle''
        \<and> Method r \<noteq> ''POST'' \<longrightarrow>
      handleTodoByID m r e
        = (writeErr [''Allow'' \<mapsto> ''POST''] 405 (errors_New ''method not allowed''), m)
      \<and> status (fst (handleTodoByID m r e)) = 405
      \<and> headers (fst (handleTodoByID m r e)) ''Allow'' = Some ''POST'')
   \<and> (id' \<noteq> [] \<and> CHR ''/'' \<notin> set id' \<and> Path r = ''/todos/'' @ id'
        \<and> Method r \<noteq> ''DELETE'' \<longrightarrow>
      status (fst (handleTodoByID m r e)) = 405
      \<and> body (fst (handleTodoByID m r e)) = ErrorMessage ''method not allowed''
      \<and> snd (handleTodoByID m r e) = m)
   \<and> handleHealth m r e = (writeJSON Map.empty 200 StatusOk, m)
   \<and> status (fst (handleHealth m r e)) = 200"
proof -
  have a: "handleTodos m r e
        = (writeErr [''Allow'' \<mapsto> ''GET, POST''] 405 (errors_New ''method not allowed''), m)"
    if "Method r \<noteq> ''GET''" and "Method r \<noteq> ''POST''"
    using that by (simp add: handleTodos_def)
  have b: "handleTodoByID m r e
        = (writeErr [''Allow'' \<mapsto> ''POST''] 405 (errors_New ''method not allowed''), m)"
    if "id' \<noteq> []" and "CHR ''/'' \<notin> set id'" and "Path r = ''/todos/'' @ id' @ ''/toggle''"
      and "Method r \<noteq> ''POST''"
    using handleTodoByID_toggle [OF that(1,2,3), of m e] that(4) by simp
  have c: "handleTodoByID m r e
        = (writeErr [''Allow'' \<mapsto> ''DELETE, POST''] 405 (errors_New ''method not allowed''), m)"
    if "id' \<noteq> []" and "CHR ''/'' \<notin> set id'" and "Path r = ''/todos/'' @ id'"
      and "Method r \<noteq> ''DELETE''"
    using handleTodoByID_item [OF that(1,2), of r "[]" m e] that(3,4) by simp
  have d: "status (writeErr hdrs 405 err) = 405" for hdrs err
    by (simp add: writeErr_def writeJSON_def)
  have f: "headers (writeErr [''Allow'' \<mapsto> allowed] 405 err) ''Allow'' = Some allowed"
    for allowed err
    by (simp add: writeErr_def writeJSON_def)
  have bd: "body (writeErr hdrs 405 (errors_New msg)) = ErrorMessage msg" for hdrs msg
    by (simp add: writeErr_def writeJSON_def)
  have g: "handleHealth m r e = (writeJSON Map.empty 200 StatusOk, m)"
    by (simp add: handleHealth_def)
  have h: "status (fst (handleHealth m r e)) = 200"
    by (simp add: handleHealth_def writeJSON_def)
  have 1: "handleTodos m r e
        = (writeErr [''Allow'' \<mapsto> ''GET, POST''] 405 (errors_New ''method not allowed''), m)
      \<and> status (fst (handleTodos m r e)) = 405
      \<and> headers (fst (handleTodos m r e)) ''Allow'' = Some ''GET, POST''"
    if "Method r \<noteq> ''GET'' \<and> Method r \<noteq> ''POST''"
    using a that by (simp add: d f)
  have 2: "handleTodoByID m r e
        = (writeErr [''Allow'' \<mapsto> ''POST''] 405 (errors_New ''method not allowed''), m)
      \<and> status (fst (handleTodoByID m r e)) = 405
      \<and> headers (fst (handleTodoByID m r e)) ''Allow'' = Some ''POST''"
    if "id' \<noteq> [] \<and> CHR ''/'' \<notin> set id' \<and> Path r = ''/todos/'' @ id' @ ''/toggle''
        \<and> Method r \<noteq> ''POST''"
    using b that by (simp add: d f)
  have 3: "status (fst (handleTodoByID m r e)) = 405
      \<and> body (fst (handleTodoByID m r e)) = ErrorMessage ''method not allowed''
      \<and> snd (handleTodoByID m r e) = m"
    if "id' \<noteq> [] \<and> CHR ''/'' \<notin> set id' \<and> Path r = ''/todos/'' @ id'
        \<and> Method r \<noteq> ''DELETE''"
    using c that by (simp add: d bd)
  from 1 2 3 g h show ?thesis by blast
qed

theorem method_not_allowed_witness:
  "handleTodos store_ab \<lparr>Method = ''PUT'', Path = ''/todos'', decoded = None\<rparr>
        \<lparr>unix_now = 1700000000, rand_intn = 42, time_now = 9, range_keys = [''a'', ''b'']\<rparr>
      = (writeErr [''Allow'' \<mapsto> ''GET, POST''] 405 (errors_New ''method not allowed''), store_ab)
   \<and> handleTodoByID store_ab \<lparr>Method = ''GET'', Path = ''/todos/a/toggle'', decoded = None\<rparr>
        \<lparr>unix_now = 1700000000, rand_intn = 42, time_now = 9, range_keys = [''a'', ''b'']\<rparr>
      = (writeErr [''Allow'' \<mapsto> ''POST''] 405 (errors_New ''method not allowed''), store_ab)
   \<and> status (fst (handleTodoByID store_ab
        \<lparr>Method = ''PUT'', Path = ''/todos/a'', decoded = None\<rparr>
        \<lparr>unix_now = 1700000000, rand_intn = 42, time_now = 9, range_keys = [''a'', ''b'']\<rparr>))
      = 405
   \<and> snd (handleTodoByID store_ab
        \<lparr>Method = ''PUT'', Path = ''/todos/a'', decoded = None\<rparr>
        \<lparr>unix_now = 1700000000, rand_intn = 42, time_now = 9, range_keys = [''a'', ''b'']\<rparr>)
      = store_ab"
proof -
  let ?e = "\<lparr>unix_now = 1700000000, rand_intn = 42, time_now = 9, range_keys = [''a'', ''b'']\<rparr>"
  from method_not_allowed [of "\<lparr>Method = ''PUT'', Path = ''/todos'', decoded = None\<rparr>"
      store_ab ?e]
  have 1: "handleTodos store_ab \<lparr>Method = ''PUT'', Path = ''/todos'', decoded = None\<rparr> ?e
      = (writeErr [''Allow'' \<mapsto> ''GET, POST''] 405 (errors_New ''method not allowed''), store_ab)"
    by simp
  from method_not_allowed [of "\<lparr>Method = ''GET'', Path = ''/todos/a/toggle'', decoded = None\<rparr>"
      store_ab ?e "''a''"]
  have 2: "handleTodoByID store_ab \<lparr>Method = ''GET'', Path = ''/todos/a/toggle'', decoded = None\<rparr> ?e
      = (writeErr [''Allow'' \<mapsto> ''POST''] 405 (errors_New ''method not allowed''), store_ab)"
    by simp
  from method_not_allowed [of "\<lparr>Method = ''PUT'', Path = ''/todos/a'', decoded = None\<rparr>"
      store_ab ?e "''a''"]
  have 3: "status (fst (handleTodoByID store_ab
        \<lparr>Method = ''PUT'', Path = ''/todos/a'', decoded = None\<rparr> ?e)) = 405
      \<and> snd (handleTodoByID store_ab
        \<lparr>Method = ''PUT'', Path = ''/todos/a'', decoded = None\<rparr> ?e) = store_ab"
    by simp
  from 1 2 3 show ?thesis by (intro conjI) simp_all
qed

text \<open>
  C8 as stated fails at two inputs. A \<^verbatim>\<open>DELETE /health\<close> is answered with 200 and no
  \<^verbatim>\<open>Allow\<close> header. A \<^verbatim>\<open>POST /todos/a\<close> is refused with 405, and the \<^verbatim>\<open>Allow\<close>
  header of that answer is \<^verbatim>\<open>DELETE, POST\<close>: it lists the method it refuses, so it is
  not the list of the methods permitted on that path.
\<close>

theorem health_serves_every_method:
  "status (fst (handleHealth store_ab \<lparr>Method = ''DELETE'', Path = ''/health'', decoded = None\<rparr>
        \<lparr>unix_now = 1700000000, rand_intn = 42, time_now = 9, range_keys = [''a'', ''b'']\<rparr>))
     = 200
   \<and> status (fst (handleHealth store_ab \<lparr>Method = ''DELETE'', Path = ''/health'', decoded = None\<rparr>
        \<lparr>unix_now = 1700000000, rand_intn = 42, time_now = 9, range_keys = [''a'', ''b'']\<rparr>))
     \<noteq> 405
   \<and> headers (fst (handleHealth store_ab \<lparr>Method = ''DELETE'', Path = ''/health'', decoded = None\<rparr>
        \<lparr>unix_now = 1700000000, rand_intn = 42, time_now = 9, range_keys = [''a'', ''b'']\<rparr>))
       ''Allow'' = None
   \<and> status (fst (handleTodoByID store_ab \<lparr>Method = ''POST'', Path = ''/todos/a'', decoded = None\<rparr>
        \<lparr>unix_now = 1700000000, rand_intn = 42, time_now = 9, range_keys = [''a'', ''b'']\<rparr>))
     = 405
   \<and> headers (fst (handleTodoByID store_ab \<lparr>Method = ''POST'', Path = ''/todos/a'', decoded = None\<rparr>
        \<lparr>unix_now = 1700000000, rand_intn = 42, time_now = 9, range_keys = [''a'', ''b'']\<rparr>))
       ''Allow'' = Some ''DELETE, POST''"
proof -
  have "handleTodoByID store_ab \<lparr>Method = ''POST'', Path = ''/todos/a'', decoded = None\<rparr>
        \<lparr>unix_now = 1700000000, rand_intn = 42, time_now = 9, range_keys = [''a'', ''b'']\<rparr>
      = (writeErr [''Allow'' \<mapsto> ''DELETE, POST''] 405 (errors_New ''method not allowed''),
         store_ab)"
    using handleTodoByID_item [of "''a''"
        "\<lparr>Method = ''POST'', Path = ''/todos/a'', decoded = None\<rparr>" "[]" store_ab]
    by simp
  then show ?thesis
    by (simp add: handleHealth_def writeErr_def writeJSON_def)
qed

subsection \<open>Toggling\<close>

text \<open>
  C4, as the code has it. For an id in the store, \<^verbatim>\<open>Toggle\<close> succeeds, flips \<open>Done\<close>,
  sets \<open>UpdatedAt\<close> to the reading of the clock it takes and changes nothing else of the
  record; so \<open>UpdatedAt\<close> advances strictly when that reading is later than the former
  \<open>UpdatedAt\<close>. A second \<^verbatim>\<open>Toggle\<close> restores the original \<open>Done\<close>.
\<close>

theorem toggle_flips:
  assumes "m id' = Some t"
  shows "\<exists>t'. memRepo_Toggle m id' now = (Inr t', m(id' \<mapsto> t'))
           \<and> t' = t\<lparr>Done := \<not> Done t, UpdatedAt := now\<rparr>
           \<and> Done t' = (\<not> Done t) \<and> UpdatedAt t' = now
           \<and> (UpdatedAt t < now \<longrightarrow> UpdatedAt t < UpdatedAt t')
           \<and> (\<exists>t''. memRepo_Toggle (m(id' \<mapsto> t')) id' now' = (Inr t'', m(id' \<mapsto> t''))
                  \<and> Done t'' = Done t)"
  using assms by (simp add: memRepo_Toggle_def Let_def)

theorem toggle_flips_witness:
  "store_ab ''a'' = Some todo_a
   \<and> (\<exists>t'. memRepo_Toggle store_ab ''a'' 8 = (Inr t', store_ab(''a'' \<mapsto> t'))
          \<and> Done t' = (\<not> Done todo_a) \<and> UpdatedAt t' = 8
          \<and> UpdatedAt todo_a < UpdatedAt t'
          \<and> (\<exists>t''. memRepo_Toggle (store_ab(''a'' \<mapsto> t')) ''a'' 9
                   = (Inr t'', store_ab(''a'' \<mapsto> t''))
                 \<and> Done t'' = Done todo_a))"
proof -
  have h: "store_ab ''a'' = Some todo_a" by (simp add: store_ab_def)
  have lt: "UpdatedAt todo_a < 8" by (simp add: todo_a_def)
  from toggle_flips [of store_ab "''a''" todo_a 8 9, OF h] lt h show ?thesis
    by auto
qed

text \<open>
  C4 as stated fails when the clock gives \<^verbatim>\<open>Toggle\<close> the instant that the record
  already carries: a record created at instant 5 and toggled at instant 5 keeps
  \<open>UpdatedAt = 5\<close>.
\<close>

theorem toggle_same_instant:
  "snd (memRepo_Create New [97] 1700000000 42 5) ''1700000000-42''
     = Some \<lparr>ID = ''1700000000-42'', Title = [97], Done = False, CreatedAt = 5, UpdatedAt = 5\<rparr>
   \<and> fst (memRepo_Toggle (snd (memRepo_Create New [97] 1700000000 42 5)) ''1700000000-42'' 5)
     = Inr \<lparr>ID = ''1700000000-42'', Title = [97], Done = True, CreatedAt = 5, UpdatedAt = 5\<rparr>
   \<and> \<not> UpdatedAt \<lparr>ID = ''1700000000-42'', Title = [97], Done = False, CreatedAt = 5,
                   UpdatedAt = 5\<rparr>
       < UpdatedAt \<lparr>ID = ''1700000000-42'', Title = [97], Done = True, CreatedAt = 5,
                   UpdatedAt = 5\<rparr>"
  by (simp add: memRepo_Create_def memRepo_Toggle_def New_def Sprintf_sample Let_def)

subsection \<open>Deleting\<close>

lemma list_results:
  assumes "distinct ks" and "set ks = dom m"
  shows "\<exists>out. memRepo_List m ks = Inr out \<and> set out = ran m"
proof -
  from assms(2) have "set ks \<subseteq> dom m" by simp
  from memRepo_List_mset [OF this] obtain out
    where out: "memRepo_List m ks = Inr out" "mset out = mset (map (\<lambda>k. the (m k)) ks)"
    by blast
  from out(2) have "set out = set (map (\<lambda>k. the (m k)) ks)" by (rule mset_eq_setD)
  with assms(2) have "set out = ran m" by (simp add: ran_eq_image)
  with out(1) show ?thesis by blast
qed

text \<open>
  C6. For an id in the store, \<^verbatim>\<open>Delete\<close> succeeds and removes that key alone: a
  following \<^verbatim>\<open>List\<close> returns no record with that id and returns the records of all
  other keys, every other key keeps its record, and a second \<^verbatim>\<open>Delete\<close> of the id
  fails with the not-found error. The store is one in which every record lies under its
  own id.
\<close>

theorem delete_removes:
  assumes "m id' = Some t" and "keyed_by_id m"
    and "distinct ks" and "set ks = dom (snd (memRepo_Delete m id'))"
  shows "memRepo_Delete m id' = (Inr (), m(id' := None))
    \<and> (\<exists>out. memRepo_List (m(id' := None)) ks = Inr out
           \<and> id' \<notin> ID ` set out \<and> set out = ran (m(id' := None)))
    \<and> (\<forall>k. k \<noteq> id' \<longrightarrow> (m(id' := None)) k = m k)
    \<and> memRepo_Delete (m(id' := None)) id' = (Inl NotFoundError, m(id' := None))"
proof -
  let ?m = "m(id' := None)"
  have del: "memRepo_Delete m id' = (Inr (), ?m)"
    using assms(1) by (simp add: memRepo_Delete_def)
  with assms(4) have ks: "set ks = dom ?m" by simp
  from list_results [OF assms(3) ks] obtain out
    where out: "memRepo_List ?m ks = Inr out" "set out = ran ?m" by blast
  have "id' \<notin> ID ` set out"
  proof
    assume "id' \<in> ID ` set out"
    then obtain u where "u \<in> ran ?m" and "ID u = id'" using out(2) by auto
    then obtain k where "?m k = Some u" by (auto simp: ran_def)
    then have "k \<noteq> id'" and "m k = Some u" by (auto split: if_splits)
    with assms(2) \<open>ID u = id'\<close> show False by (auto simp: keyed_by_id_def)
  qed
  moreover have "memRepo_Delete ?m id' = (Inl NotFoundError, ?m)"
    by (simp add: memRepo_Delete_absent)
  ultimately show ?thesis using del out by auto
qed

theorem delete_removes_witness:
  "store_ab ''a'' = Some todo_a \<and> keyed_by_id store_ab \<and> distinct [''b'']
   \<and> set [''b''] = dom (snd (memRepo_Delete store_ab ''a''))
   \<and> memRepo_Delete store_ab ''a'' = (Inr (), store_ab(''a'' := None))
   \<and> (\<exists>out. memRepo_List (store_ab(''a'' := None)) [''b''] = Inr out \<and> ''a'' \<notin> ID ` set out)
   \<and> memRepo_Delete (store_ab(''a'' := None)) ''a'' = (Inl NotFoundError, store_ab(''a'' := None))"
proof -
  have h1: "store_ab ''a'' = Some todo_a" by (simp add: store_ab_def)
  have h2: "keyed_by_id store_ab"
    by (simp add: keyed_by_id_def store_ab_def todo_a_def todo_b_def)
  have h3: "distinct [''b'']" by simp
  have h4: "set [''b''] = dom (snd (memRepo_Delete store_ab ''a''))"
    by (auto simp: memRepo_Delete_def store_ab_def split: if_splits)
  from delete_removes [of store_ab "''a''" todo_a "[''b'']", OF h1 h2 h3 h4] h1 h2 h3 h4
  show ?thesis by blast
qed

subsection \<open>Ids\<close>

text \<open>
  C7 on the code: two calls of \<^verbatim>\<open>Create\<close> that read the same second from the clock
  and draw the same random number compute the same id. Both succeed, the second record
  replaces the first in the map, and \<^verbatim>\<open>List\<close> returns one record after two creations.
\<close>

theorem id_collision_overwrites:
  "fst (TodoService_Create New [97] 1700000000 42 5)
     = Inr \<lparr>ID = ''1700000000-42'', Title = [97], Done = False, CreatedAt = 5, UpdatedAt = 5\<rparr>
   \<and> fst (TodoService_Create (snd (TodoService_Create New [97] 1700000000 42 5))
          [98] 1700000000 42 6)
     = Inr \<lparr>ID = ''1700000000-42'', Title = [98], Done = False, CreatedAt = 6, UpdatedAt = 6\<rparr>
   \<and> dom (snd (TodoService_Create (snd (TodoService_Create New [97] 1700000000 42 5))
          [98] 1700000000 42 6))
     = {''1700000000-42''}
   \<and> TodoService_List
        (snd (TodoService_Create (snd (TodoService_Create New [97] 1700000000 42 5))
          [98] 1700000000 42 6))
        [''1700000000-42'']
     = Inr [\<lparr>ID = ''1700000000-42'', Title = [98], Done = False, CreatedAt = 6, UpdatedAt = 6\<rparr>]"
proof -
  have t: "TrimSpace [97] = [97]" "TrimSpace [98] = [98]"
    by (simp_all add: TrimSpace_def IsSpace_def)
  show ?thesis
    by (simp add: TodoService_Create_def memRepo_Create_def New_def Sprintf_sample Let_def t
        TodoService_List_def memRepo_List_def sort_outer.simps sort_inner.simps)
qed

subsection \<open>Operations that cannot fail\<close>

text \<open>
  C10. \<^verbatim>\<open>Create\<close> and \<^verbatim>\<open>List\<close> of the in-memory repository return no error,
  whatever the store, the arguments and the readings of the environment; hence the
  handler answers every \<^verbatim>\<open>GET /todos\<close> with 200 and the list, never with 500.
\<close>

theorem create_list_never_fail:
  "(\<exists>t. memRepo_Create m title timestamp random now = (Inr t, m(ID t \<mapsto> t)))
   \<and> (\<exists>out. memRepo_List m ks = Inr out)
   \<and> (\<exists>out. handleTodos m (r\<lparr>Method := ''GET''\<rparr>) e
          = (writeJSON Map.empty 200 (TodoList out), m))
   \<and> status (fst (handleTodos m (r\<lparr>Method := ''GET''\<rparr>) e)) = 200"
  by (simp add: memRepo_Create_def Let_def memRepo_List_def handleTodos_def
      TodoService_List_def writeJSON_def)

theorem create_list_never_fail_witness:
  "status (fst (handleTodos store_ab \<lparr>Method = ''GET'', Path = ''/todos'', decoded = None\<rparr>
        \<lparr>unix_now = 1700000000, rand_intn = 42, time_now = 9, range_keys = [''a'', ''b'']\<rparr>))
     = 200
   \<and> (\<exists>out. memRepo_List store_ab [''a'', ''b''] = Inr out)"
  using create_list_never_fail [of store_ab _ _ _ _ "[''a'', ''b'']"
      "\<lparr>Method = ''GET'', Path = ''/todos'', decoded = None\<rparr>"
      "\<lparr>unix_now = 1700000000, rand_intn = 42, time_now = 9, range_keys = [''a'', ''b'']\<rparr>"]
  by simp

end
